theory Spec2Isabelle
  imports Main
begin

section \<open>JavaScript values and the reads the code performs on them\<close>

text \<open>
  The actions in \<^verbatim>\<open>src/app/actions/create-session.ts\<close> read objects handed back by
  external services (the identity provider's user object, the body of an HTTP response).
  Their static types are not enforced at run time, so the model keeps them as untyped
  data. A string is a list of bytes; the accented letters of the Spanish quota messages
  are written as their UTF-8 bytes. Numbers are integers or NaN: the code only tests
  them for truthiness and prints the integer-valued ones.
\<close>

datatype jsval =
    JUndefined
  | JNull
  | JBool bool
  | JNum int
  | JNaN
  | JStr string
  | JArr "jsval list"
  | JObj "(string \<times> jsval) list"

text \<open>
  What an evaluation can raise: \<open>Error msg\<close> is \<^verbatim>\<open>throw new Error(msg)\<close> written in
  this file; \<open>TypeError\<close> is the run time's exception for a property read on
  \<^verbatim>\<open>null\<close>/\<^verbatim>\<open>undefined\<close> or a call of something that is not a function;
  \<open>Rejected d\<close> is an exception raised inside an awaited external call (the identity
  provider, \<^verbatim>\<open>fetch\<close>, a body reader, \<^verbatim>\<open>JSON.parse\<close>), with an opaque description.
  A computation that can raise returns \<open>js_exn + 'a\<close>, \<open>Inl\<close> being the exception.
\<close>

datatype js_exn =
    Error string
  | TypeError
  | Rejected string

definition nullish :: "jsval \<Rightarrow> bool" where
  "nullish v = (v = JUndefined \<or> v = JNull)"

text \<open>Truthiness, as \<^verbatim>\<open>||\<close> and \<^verbatim>\<open>!\<close> test it.\<close>

fun truthy :: "jsval \<Rightarrow> bool" where
  "truthy JUndefined = False"
| "truthy JNull = False"
| "truthy (JBool b) = b"
| "truthy (JNum n) = (n \<noteq> 0)"
| "truthy JNaN = False"
| "truthy (JStr s) = (s \<noteq> [])"
| "truthy (JArr xs) = True"
| "truthy (JObj fs) = True"

text \<open>
  The value of \<^verbatim>\<open>x.p\<close> for a value \<open>x\<close> that is neither \<^verbatim>\<open>null\<close> nor
  \<^verbatim>\<open>undefined\<close>, for the property names this file reads (none of them is a built-in
  property of a string, number, boolean or array).
\<close>

fun lookup_prop :: "jsval \<Rightarrow> string \<Rightarrow> jsval" where
  "lookup_prop (JObj fs) p = (case map_of fs p of None \<Rightarrow> JUndefined | Some v \<Rightarrow> v)"
| "lookup_prop v p = JUndefined"

text \<open>\<^verbatim>\<open>x.p\<close>: a TypeError on \<^verbatim>\<open>null\<close> and \<^verbatim>\<open>undefined\<close>.\<close>

definition get_prop :: "jsval \<Rightarrow> string \<Rightarrow> js_exn + jsval" where
  "get_prop x p = (if nullish x then Inl TypeError else Inr (lookup_prop x p))"

text \<open>\<^verbatim>\<open>x?.p\<close>: \<^verbatim>\<open>undefined\<close> on \<^verbatim>\<open>null\<close> and \<^verbatim>\<open>undefined\<close>.\<close>

definition opt_prop :: "jsval \<Rightarrow> string \<Rightarrow> jsval" where
  "opt_prop x p = (if nullish x then JUndefined else lookup_prop x p)"

text \<open>
  \<^verbatim>\<open>xs.some(f)\<close>: the elements in order, stopping at the first one \<open>f\<close> accepts; an
  exception of \<open>f\<close> ends the loop. On a value that is not an array there is no
  function \<^verbatim>\<open>some\<close> to call (values here are data, they hold no functions).
\<close>

fun some_loop :: "(jsval \<Rightarrow> js_exn + bool) \<Rightarrow> jsval list \<Rightarrow> js_exn + bool" where
  "some_loop f [] = Inr False"
| "some_loop f (x # xs) =
     (case f x of
        Inl e \<Rightarrow> Inl e
      | Inr b \<Rightarrow> if b then Inr True else some_loop f xs)"

fun array_some :: "jsval \<Rightarrow> (jsval \<Rightarrow> js_exn + bool) \<Rightarrow> js_exn + bool" where
  "array_some (JArr xs) f = some_loop f xs"
| "array_some v f = Inl TypeError"

section \<open>Plan resolution: getUserPlan\<close>

datatype plan = Free | Recruiter

text \<open>
  The callback of \<^verbatim>\<open>subscriptions.some\<close>:
  \<^verbatim>\<open>membership.organization?.publicMetadata?.plan === "recruiter"\<close>.
\<close>

definition membership_is_recruiter :: "jsval \<Rightarrow> js_exn + bool" where
  "membership_is_recruiter membership =
     (case get_prop membership ''organization'' of
        Inl e \<Rightarrow> Inl e
      | Inr organization \<Rightarrow>
          Inr (opt_prop (opt_prop organization ''publicMetadata'') ''plan'' = JStr ''recruiter''))"

text \<open>
  The body of the \<^verbatim>\<open>try\<close> block of getUserPlan. \<open>getUser\<close> stands for
  \<^verbatim>\<open>(await clerkClient()).users.getUser\<close>: it raises or returns the user object.
\<close>

definition getUserPlan_try :: "(string \<Rightarrow> js_exn + jsval) \<Rightarrow> string \<Rightarrow> js_exn + plan" where
  "getUserPlan_try getUser userId =
     (case getUser userId of
        Inl e \<Rightarrow> Inl e
      | Inr user \<Rightarrow>
     (case get_prop user ''organizationMemberships'' of
        Inl e \<Rightarrow> Inl e
      | Inr memberships \<Rightarrow>
     (let subscriptions = (if truthy memberships then memberships else JArr []) in
     (case array_some subscriptions membership_is_recruiter of
        Inl e \<Rightarrow> Inl e
      | Inr hasRecruiterPlan \<Rightarrow>
          if hasRecruiterPlan then Inr Recruiter
          else
     (case get_prop user ''publicMetadata'' of
        Inl e \<Rightarrow> Inl e
      | Inr publicMetadata \<Rightarrow>
          if opt_prop publicMetadata ''subscriptionPlan'' = JStr ''recruiter'' then Inr Recruiter
          else
     (case get_prop user ''privateMetadata'' of
        Inl e \<Rightarrow> Inl e
      | Inr privateMetadata \<Rightarrow>
          if opt_prop privateMetadata ''subscriptionPlan'' = JStr ''recruiter'' then Inr Recruiter
          else Inr Free))))))"

text \<open>
  getUserPlan: the \<^verbatim>\<open>try\<close> block with its \<^verbatim>\<open>catch\<close>, which returns
  \<^verbatim>\<open>"free"\<close> for every exception (the \<^verbatim>\<open>console.error\<close> line is not modelled).
\<close>

definition getUserPlan :: "(string \<Rightarrow> js_exn + jsval) \<Rightarrow> string \<Rightarrow> js_exn + plan" where
  "getUserPlan getUser userId =
     (case getUserPlan_try getUser userId of
        Inl error \<Rightarrow> Inr Free
      | Inr p \<Rightarrow> Inr p)"

section \<open>Quota policy: getMessageLimit\<close>

definition getMessageLimit :: "bool \<Rightarrow> plan \<Rightarrow> int" where
  "getMessageLimit isGuest p =
     (if isGuest then 3
      else if p = Recruiter then 20
      else 5)"

section \<open>The usage tracker\<close>

record usage =
  allowed :: bool
  remaining :: int
  limit :: int

text \<open>
  The store of usage counts: one count per (identity, calendar day); a key never written
  holds 0.
\<close>

type_synonym usage_store = "string \<times> nat \<Rightarrow> int"

text \<open>
  Modelled from the spec: hasRemainingMessages of \<^verbatim>\<open>@/lib/message-tracking\<close>, which
  create-session.ts imports and which is not among the sources. Section 4.4:
  \<^verbatim>\<open>check(identity, isGuest, limit) -> {allowed, remaining, limit}\<close> reads the count for
  (identity, today), \<^verbatim>\<open>allowed = count < limit\<close>,
  \<^verbatim>\<open>remaining = max(0, limit - count)\<close>, and does not mutate state.
\<close>

definition hasRemainingMessages :: "usage_store \<Rightarrow> nat \<Rightarrow> string \<Rightarrow> bool \<Rightarrow> int \<Rightarrow> usage" where
  "hasRemainingMessages store day identifier isGuest messageLimit =
     (let count = store (identifier, day)
      in \<lparr>allowed = count < messageLimit,
          remaining = max 0 (messageLimit - count),
          limit = messageLimit\<rparr>)"

text \<open>
  Modelled from the spec: incrementMessageCount of \<^verbatim>\<open>@/lib/message-tracking\<close>, not among
  the sources. Section 4.4: \<^verbatim>\<open>commit(identity, isGuest, limit)\<close> increments the count
  for (identity, today) by one.
\<close>

definition incrementMessageCount :: "usage_store \<Rightarrow> nat \<Rightarrow> string \<Rightarrow> bool \<Rightarrow> int \<Rightarrow> usage_store" where
  "incrementMessageCount store day identifier isGuest messageLimit =
     store((identifier, day) := store (identifier, day) + 1)"

section \<open>Session provisioning: createSession\<close>

text \<open>The request sent to the chat-session API, and what the code reads of its response.\<close>

record chatkit_request =
  authorization :: string
  workflow_id :: string
  session_user :: string

record http_response =
  resp_ok :: bool
  resp_status :: int
  resp_text :: "js_exn + string"
  resp_json :: "js_exn + jsval"

text \<open>
  Everything createSession reads from outside: \<open>auth_userId\<close> is the \<^verbatim>\<open>userId\<close> of
  \<^verbatim>\<open>await auth()\<close> (\<^verbatim>\<open>string | null\<close>), \<open>users_getUser\<close> the provider's user lookup,
  \<open>x_forwarded_for\<close> the result of \<^verbatim>\<open>(await headers()).get("x-forwarded-for")\<close>,
  \<open>today\<close> the calendar day of the tracker's clock, \<open>date_now\<close> and \<open>random_suffix\<close>
  the values of \<^verbatim>\<open>Date.now()\<close> and \<^verbatim>\<open>Math.random().toString(36).substring(7)\<close>,
  \<open>OPENAI_API_KEY\<close> the environment variable, \<open>WORKFLOW_ID\<close> the constant imported
  from \<^verbatim>\<open>@/lib/config\<close> (not among the sources, so a parameter), and \<open>fetch\<close> the HTTP
  call, which rejects (a network failure) or resolves to a response. \<^verbatim>\<open>auth()\<close> and
  \<^verbatim>\<open>headers()\<close> are taken to resolve, as they do inside a server action, and the day
  is the same at the check and at the increment of one call. The calls in which
  \<^verbatim>\<open>auth()\<close>, \<^verbatim>\<open>headers()\<close> or the tracker reject are \<open>createSession_with\<close>, further
  down.
\<close>

record env =
  auth_userId :: "string option"
  users_getUser :: "string \<Rightarrow> js_exn + jsval"
  x_forwarded_for :: "string option"
  today :: nat
  date_now :: int
  random_suffix :: string
  OPENAI_API_KEY :: "string option"
  WORKFLOW_ID :: "string option"
  fetch :: "chatkit_request \<Rightarrow> js_exn + http_response"

text \<open>Truthiness of a \<^verbatim>\<open>string | null | undefined\<close>: the empty string is falsy.\<close>

definition truthy_str :: "string option \<Rightarrow> bool" where
  "truthy_str s = (case s of None \<Rightarrow> False | Some v \<Rightarrow> v \<noteq> [])"

text \<open>A template literal's rendering of an integer-valued number.\<close>

definition digit_char :: "nat \<Rightarrow> char" where
  "digit_char d =
     (if d = 0 then CHR ''0'' else if d = 1 then CHR ''1'' else if d = 2 then CHR ''2''
      else if d = 3 then CHR ''3'' else if d = 4 then CHR ''4'' else if d = 5 then CHR ''5''
      else if d = 6 then CHR ''6'' else if d = 7 then CHR ''7'' else if d = 8 then CHR ''8''
      else CHR ''9'')"

fun digits_of :: "nat \<Rightarrow> string" where
  "digits_of n =
     (if n < 10 then [digit_char n] else digits_of (n div 10) @ [digit_char (n mod 10)])"

declare digits_of.simps [simp del]

definition number_to_string :: "int \<Rightarrow> string" where
  "number_to_string i =
     (if i < 0 then CHR ''-'' # digits_of (nat (- i)) else digits_of (nat i))"

text \<open>
  Lines 52 and 59-66: \<^verbatim>\<open>isGuest = !userId\<close>, and the identifier the usage is tracked
  under: the user id when there is one, else
  \<^verbatim>\<open>(await headers()).get("x-forwarded-for") ?? "127.0.0.1"\<close>.
\<close>

definition isGuest_of :: "env \<Rightarrow> bool" where
  "isGuest_of e = (\<not> truthy_str (auth_userId e))"

definition identifier_of :: "env \<Rightarrow> string" where
  "identifier_of e =
     (case auth_userId e of
        Some userId \<Rightarrow>
          if userId \<noteq> [] then userId
          else (case x_forwarded_for e of Some h \<Rightarrow> h | None \<Rightarrow> ''127.0.0.1'')
      | None \<Rightarrow> (case x_forwarded_for e of Some h \<Rightarrow> h | None \<Rightarrow> ''127.0.0.1''))"

text \<open>Line 55: \<^verbatim>\<open>userId ? await getUserPlan(userId) : "free"\<close>.\<close>

definition plan_of :: "env \<Rightarrow> js_exn + plan" where
  "plan_of e =
     (case auth_userId e of
        Some userId \<Rightarrow> if userId \<noteq> [] then getUserPlan (users_getUser e) userId else Inr Free
      | None \<Rightarrow> Inr Free)"

text \<open>Lines 76-80: the message of the error thrown when the check does not allow.\<close>

definition limit_reached :: "int \<Rightarrow> string" where
  "limit_reached lim =
     ''Has alcanzado el l'' @ [CHR 0xC3, CHR 0xAD] @ ''mite de '' @ number_to_string lim
       @ '' mensajes diarios. ''"

definition messages_per_day :: string where
  "messages_per_day = '' mensajes al d'' @ [CHR 0xC3, CHR 0xAD] @ ''a.''"

definition quota_message :: "bool \<Rightarrow> plan \<Rightarrow> int \<Rightarrow> string" where
  "quota_message isGuest p lim =
     (if isGuest
      then limit_reached lim @ ''Inicia sesi'' @ [CHR 0xC3, CHR 0xB3] @ ''n para obtener ''
             @ number_to_string (getMessageLimit False Free) @ messages_per_day
      else if p = Recruiter
      then limit_reached lim @ ''Vuelve ma'' @ [CHR 0xC3, CHR 0xB1] @ ''ana para continuar.''
      else limit_reached lim @ ''Actualiza a Recruiter para obtener ''
             @ number_to_string (getMessageLimit False Recruiter) @ messages_per_day)"

text \<open>
  Line 86: \<^verbatim>\<open>userId || `guest_${Date.now()}_${Math.random().toString(36).substring(7)}`\<close>.
\<close>

definition sessionUserId_of :: "env \<Rightarrow> string" where
  "sessionUserId_of e =
     (let guest = ''guest_'' @ number_to_string (date_now e) @ ''_'' @ random_suffix e
      in case auth_userId e of
           Some userId \<Rightarrow> if userId \<noteq> [] then userId else guest
         | None \<Rightarrow> guest)"

text \<open>
  What a call of createSession holds once \<^verbatim>\<open>await response.json()\<close> has returned and
  before it touches the usage store again.
\<close>

record pending =
  p_identifier :: string
  p_isGuest :: bool
  p_messageLimit :: int
  p_data :: jsval

text \<open>
  Lines 51-116 of createSession: from \<^verbatim>\<open>auth()\<close> to \<^verbatim>\<open>await response.json()\<close>.
  This part reads the usage store once (hasRemainingMessages) and never writes it.
\<close>

definition createSession_request :: "env \<Rightarrow> usage_store \<Rightarrow> js_exn + pending" where
  "createSession_request e store =
     (let isGuest = isGuest_of e in
      case plan_of e of
        Inl ex \<Rightarrow> Inl ex
      | Inr p \<Rightarrow>
     (let messageLimit = getMessageLimit isGuest p;
          identifier = identifier_of e;
          u = hasRemainingMessages store (today e) identifier isGuest messageLimit
      in
      if \<not> allowed u then Inl (Error (quota_message isGuest p (limit u)))
      else
     (let sessionUserId = sessionUserId_of e in
      case OPENAI_API_KEY e of
        None \<Rightarrow> Inl (Error ''OPENAI_API_KEY not configured'')
      | Some apiKey \<Rightarrow>
      if apiKey = [] then Inl (Error ''OPENAI_API_KEY not configured'')
      else
     (case WORKFLOW_ID e of
        None \<Rightarrow> Inl (Error ''WORKFLOW_ID not configured'')
      | Some workflow \<Rightarrow>
      if workflow = [] then Inl (Error ''WORKFLOW_ID not configured'')
      else
     (case fetch e \<lparr>authorization = ''Bearer '' @ apiKey, workflow_id = workflow,
                     session_user = sessionUserId\<rparr> of
        Inl ex \<Rightarrow> Inl ex
      | Inr response \<Rightarrow>
      if \<not> resp_ok response
      then (case resp_text response of
              Inl ex \<Rightarrow> Inl ex
            | Inr error \<Rightarrow> Inl (Error (''Failed to create session: '' @ error)))
      else
     (case resp_json response of
        Inl ex \<Rightarrow> Inl ex
      | Inr data \<Rightarrow>
          Inr \<lparr>p_identifier = identifier, p_isGuest = isGuest,
               p_messageLimit = messageLimit, p_data = data\<rparr>))))))"

text \<open>
  Lines 118-121: the increment, then \<^verbatim>\<open>return data.client_secret\<close> (a TypeError when
  the body was \<^verbatim>\<open>null\<close>).
\<close>

definition createSession_commit :: "env \<Rightarrow> pending \<Rightarrow> usage_store \<Rightarrow> (js_exn + jsval) \<times> usage_store" where
  "createSession_commit e pd store =
     (let store' = incrementMessageCount store (today e) (p_identifier pd) (p_isGuest pd)
                     (p_messageLimit pd)
      in (get_prop (p_data pd) ''client_secret'', store'))"

text \<open>createSession: its result (the exception or the returned value) and the store it leaves.\<close>

definition createSession :: "env \<Rightarrow> usage_store \<Rightarrow> (js_exn + jsval) \<times> usage_store" where
  "createSession e store =
     (case createSession_request e store of
        Inl ex \<Rightarrow> (Inl ex, store)
      | Inr pd \<Rightarrow> createSession_commit e pd store)"

section \<open>createSession when an awaited call rejects\<close>







section \<open>Vocabulary of the statements about plan resolution\<close>

text \<open>
  The three signals getUserPlan looks at, as predicates on values that are neither
  \<^verbatim>\<open>null\<close> nor \<^verbatim>\<open>undefined\<close>: the organization of a membership marks the plan
  recruiter; the user's public metadata does; the user's private metadata does.
  \<open>subscriptions_of\<close> is \<^verbatim>\<open>user.organizationMemberships || []\<close>.
\<close>

definition org_marks_recruiter :: "jsval \<Rightarrow> bool" where
  "org_marks_recruiter membership =
     (opt_prop (opt_prop (lookup_prop membership ''organization'') ''publicMetadata'') ''plan''
        = JStr ''recruiter'')"

definition subscriptions_of :: "jsval \<Rightarrow> jsval" where
  "subscriptions_of user =
     (if truthy (lookup_prop user ''organizationMemberships'')
      then lookup_prop user ''organizationMemberships'' else JArr [])"

definition public_marks_recruiter :: "jsval \<Rightarrow> bool" where
  "public_marks_recruiter user =
     (opt_prop (lookup_prop user ''publicMetadata'') ''subscriptionPlan'' = JStr ''recruiter'')"

definition private_marks_recruiter :: "jsval \<Rightarrow> bool" where
  "private_marks_recruiter user =
     (opt_prop (lookup_prop user ''privateMetadata'') ''subscriptionPlan'' = JStr ''recruiter'')"

text \<open>
  A user whose second organization is on the recruiter plan while the user's own public
  metadata says free.
\<close>

definition free_org :: jsval where
  "free_org = JObj [(''organization'', JObj [(''publicMetadata'', JObj [(''plan'', JStr ''free'')])])]"

definition recruiter_org :: jsval where
  "recruiter_org =
     JObj [(''organization'', JObj [(''publicMetadata'', JObj [(''plan'', JStr ''recruiter'')])])]"

definition conflicted_user :: jsval where
  "conflicted_user = JObj
     [(''id'', JStr ''user_1''),
      (''organizationMemberships'', JArr [free_org, recruiter_org]),
      (''publicMetadata'', JObj [(''subscriptionPlan'', JStr ''free'')]),
      (''privateMetadata'', JObj [])]"

text \<open>
  A user object whose memberships field is a string, not an array, and whose public
  metadata says recruiter.
\<close>

definition malformed_user :: jsval where
  "malformed_user = JObj
     [(''organizationMemberships'', JStr ''recruiter''),
      (''publicMetadata'', JObj [(''subscriptionPlan'', JStr ''recruiter'')])]"

section \<open>Vocabulary of the statements about createSession\<close>

text \<open>
  The check createSession performs (lines 69-73), for the plan \<open>p\<close> resolved on line 55;
  the request it sends (lines 98-109); and the store after one increment of the caller's
  (identity, day) count.
\<close>

definition usage_check :: "env \<Rightarrow> plan \<Rightarrow> usage_store \<Rightarrow> usage" where
  "usage_check e p store =
     hasRemainingMessages store (today e) (identifier_of e) (isGuest_of e)
       (getMessageLimit (isGuest_of e) p)"

definition session_request :: "env \<Rightarrow> string \<Rightarrow> string \<Rightarrow> chatkit_request" where
  "session_request e apiKey workflow =
     \<lparr>authorization = ''Bearer '' @ apiKey, workflow_id = workflow,
      session_user = sessionUserId_of e\<rparr>"

definition incremented :: "env \<Rightarrow> usage_store \<Rightarrow> usage_store" where
  "incremented e store =
     store((identifier_of e, today e) := store (identifier_of e, today e) + 1)"

text \<open>
  Concrete environments: an anonymous caller behind 203.0.113.7 for whom every external
  call succeeds, and variants in which one thing goes wrong.
\<close>

definition session_created :: http_response where
  "session_created =
     \<lparr>resp_ok = True, resp_status = 200,
      resp_text = Inr ''{\"client_secret\":\"cs_1\"}'',
      resp_json = Inr (JObj [(''client_secret'', JStr ''cs_1'')])\<rparr>"

definition guest_env :: env where
  "guest_env =
     \<lparr>auth_userId = None,
      users_getUser = (\<lambda>u. Inl (Rejected ''not found'')),
      x_forwarded_for = Some ''203.0.113.7'',
      today = 19700,
      date_now = 1700000000000,
      random_suffix = ''k3x9q'',
      OPENAI_API_KEY = Some ''sk-test'',
      WORKFLOW_ID = Some ''wf_1'',
      fetch = (\<lambda>r. Inr session_created)\<rparr>"

definition network_down_env :: env where
  "network_down_env = guest_env\<lparr>fetch := (\<lambda>r. Inl (Rejected ''fetch failed''))\<rparr>"

definition upstream_refuses_env :: env where
  "upstream_refuses_env = guest_env\<lparr>fetch := (\<lambda>r. Inr
     \<lparr>resp_ok = False, resp_status = 401, resp_text = Inr ''invalid api key'',
      resp_json = Inl (Rejected ''body is not JSON'')\<rparr>)\<rparr>"

definition no_api_key_env :: env where
  "no_api_key_env = guest_env\<lparr>OPENAI_API_KEY := None\<rparr>"

definition empty_store :: usage_store where
  "empty_store = (\<lambda>k. 0)"

definition two_used :: usage_store where
  "two_used = empty_store((''203.0.113.7'', 19700) := 2)"

text \<open>Signed-in callers: one on the free plan, one whose organization is on the recruiter plan.\<close>

definition free_user_env :: env where
  "free_user_env =
     guest_env\<lparr>auth_userId := Some ''user_1'', users_getUser := (\<lambda>u. Inr (JObj []))\<rparr>"

definition recruiter_env :: env where
  "recruiter_env =
     guest_env\<lparr>auth_userId := Some ''user_1'', users_getUser := (\<lambda>u. Inr conflicted_user)\<rparr>"

definition used_up :: "string \<Rightarrow> int \<Rightarrow> usage_store" where
  "used_up identifier n = empty_store((identifier, 19700) := n)"

definition no_keys_env :: env where
  "no_keys_env = guest_env\<lparr>OPENAI_API_KEY := None, WORKFLOW_ID := None\<rparr>"

definition null_body_env :: env where
  "null_body_env = guest_env\<lparr>fetch := (\<lambda>r. Inr
     \<lparr>resp_ok = True, resp_status = 200, resp_text = Inr ''null'',
      resp_json = Inr JNull\<rparr>)\<rparr>"

section \<open>The job-fit endpoint: POST\<close>

text \<open>
  The route handler in the second part of the source (lines 202-273). Of the request it sends to
  the completions API the model keeps the bearer token and the job description; the rest
  (the model name, the prompt, the fixed CV) is constant text.
\<close>

record completion_request =
  cr_authorization :: string
  cr_jobDescription :: jsval

record api_response =
  api_status :: int
  api_body :: jsval

text \<open>
  What POST reads from outside: \<open>req_json\<close> is \<^verbatim>\<open>await req.json()\<close>,
  \<open>job_OPENAI_API_KEY\<close> the environment variable, \<open>completions_fetch\<close> the HTTP call,
  and \<open>JSON_parse\<close> the built-in \<^verbatim>\<open>JSON.parse\<close> (a parameter: it raises a
  SyntaxError or returns the parsed value).
\<close>

record job_env =
  req_json :: "js_exn + jsval"
  job_OPENAI_API_KEY :: "string option"
  completions_fetch :: "completion_request \<Rightarrow> js_exn + http_response"
  JSON_parse :: "jsval \<Rightarrow> js_exn + jsval"

text \<open>\<^verbatim>\<open>x[0]\<close>.\<close>

fun index0 :: "jsval \<Rightarrow> js_exn + jsval" where
  "index0 JUndefined = Inl TypeError"
| "index0 JNull = Inl TypeError"
| "index0 (JArr xs) = Inr (case xs of [] \<Rightarrow> JUndefined | x # rest \<Rightarrow> x)"
| "index0 (JStr s) = Inr (case s of [] \<Rightarrow> JUndefined | c # rest \<Rightarrow> JStr [c])"
| "index0 (JObj fs) = Inr (lookup_prop (JObj fs) ''0'')"
| "index0 v = Inr JUndefined"

text \<open>Line 263: \<^verbatim>\<open>data.choices[0].message.content\<close>.\<close>

definition completion_content :: "jsval \<Rightarrow> js_exn + jsval" where
  "completion_content data =
     (case get_prop data ''choices'' of
        Inl ex \<Rightarrow> Inl ex
      | Inr choices \<Rightarrow>
     (case index0 choices of
        Inl ex \<Rightarrow> Inl ex
      | Inr choice \<Rightarrow>
     (case get_prop choice ''message'' of
        Inl ex \<Rightarrow> Inl ex
      | Inr message \<Rightarrow> get_prop message ''content'')))"

text \<open>
  \<^verbatim>\<open>Response.json(object)\<close>: status 200 with the value as body; a TypeError for
  \<^verbatim>\<open>undefined\<close>, which has no JSON form.
\<close>

definition Response_json :: "jsval \<Rightarrow> js_exn + api_response" where
  "Response_json v =
     (if v = JUndefined then Inl TypeError else Inr \<lparr>api_status = 200, api_body = v\<rparr>)"

text \<open>The two error responses the handler builds (lines 209 and 271).\<close>

definition configuration_error :: api_response where
  "configuration_error =
     \<lparr>api_status = 500, api_body = JObj [(''error'', JStr ''Server configuration error'')]\<rparr>"

definition analysis_failed :: api_response where
  "analysis_failed =
     \<lparr>api_status = 500, api_body = JObj [(''error'', JStr ''Failed to analyze job fit'')]\<rparr>"

text \<open>
  The body of the \<^verbatim>\<open>try\<close> block: its outcome and the number of calls made to the
  completions API. \<^verbatim>\<open>const { jobDescription } = await req.json()\<close> raises on a body that
  is \<^verbatim>\<open>null\<close>.
\<close>

definition POST_try :: "job_env \<Rightarrow> (js_exn + api_response) \<times> nat" where
  "POST_try e =
     (case req_json e of
        Inl ex \<Rightarrow> (Inl ex, 0)
      | Inr requestBody \<Rightarrow>
     (case get_prop requestBody ''jobDescription'' of
        Inl ex \<Rightarrow> (Inl ex, 0)
      | Inr jobDescription \<Rightarrow>
     (case job_OPENAI_API_KEY e of
        None \<Rightarrow> (Inr configuration_error, 0)
      | Some apiKey \<Rightarrow>
      if apiKey = [] then (Inr configuration_error, 0)
      else
     (case completions_fetch e \<lparr>cr_authorization = ''Bearer '' @ apiKey,
                                 cr_jobDescription = jobDescription\<rparr> of
        Inl ex \<Rightarrow> (Inl ex, 1)
      | Inr response \<Rightarrow>
      if \<not> resp_ok response
      then (case resp_text response of
              Inl ex \<Rightarrow> (Inl ex, 1)
            | Inr errorText \<Rightarrow>
                (Inl (Error (''OpenAI API failed: '' @ number_to_string (resp_status response))), 1))
      else
     (case resp_json response of
        Inl ex \<Rightarrow> (Inl ex, 1)
      | Inr data \<Rightarrow>
     (case completion_content data of
        Inl ex \<Rightarrow> (Inl ex, 1)
      | Inr content \<Rightarrow>
     (case JSON_parse e content of
        Inl ex \<Rightarrow> (Inl ex, 1)
      | Inr object \<Rightarrow> (Response_json object, 1))))))))"

text \<open>
  POST: the \<^verbatim>\<open>try\<close> block with its \<^verbatim>\<open>catch\<close>, which answers every exception
  with the same response (the \<^verbatim>\<open>console.error\<close> lines are not modelled).
\<close>

definition POST :: "job_env \<Rightarrow> (js_exn + api_response) \<times> nat" where
  "POST e =
     (case POST_try e of
        (Inl error, calls) \<Rightarrow> (Inr analysis_failed, calls)
      | (Inr response, calls) \<Rightarrow> (Inr response, calls))"

text \<open>
  The expected structure of an assessment: the interface AssessmentResult in the third
  part of the source (lines 284-290), as a run-time test.
\<close>

fun is_number :: "jsval \<Rightarrow> bool" where
  "is_number (JNum n) = True"
| "is_number JNaN = True"
| "is_number v = False"

fun is_string :: "jsval \<Rightarrow> bool" where
  "is_string (JStr s) = True"
| "is_string v = False"

fun is_string_array :: "jsval \<Rightarrow> bool" where
  "is_string_array (JArr xs) = list_all is_string xs"
| "is_string_array v = False"

fun is_AssessmentResult :: "jsval \<Rightarrow> bool" where
  "is_AssessmentResult (JObj fs) =
     (is_number (lookup_prop (JObj fs) ''matchScore'') \<and>
      is_string (lookup_prop (JObj fs) ''summary'') \<and>
      is_string_array (lookup_prop (JObj fs) ''strengths'') \<and>
      is_string_array (lookup_prop (JObj fs) ''gaps'') \<and>
      lookup_prop (JObj fs) ''verdict'' \<in>
        {JStr ''High Match'', JStr ''Potential Match'', JStr ''Low Match''})"
| "is_AssessmentResult v = False"

text \<open>
  Concrete environments: the completions API answers with the given text as content.
  \<open>JSON_parse\<close> is given on the two contents used: \<^verbatim>\<open>"{}"\<close> parses to the empty object,
  the other is not JSON.
\<close>

definition completion_of :: "string \<Rightarrow> http_response" where
  "completion_of content =
     \<lparr>resp_ok = True, resp_status = 200, resp_text = Inr content,
      resp_json = Inr (JObj [(''choices'',
        JArr [JObj [(''message'', JObj [(''content'', JStr content)])]])])\<rparr>"

definition wrong_shape_env :: job_env where
  "wrong_shape_env =
     \<lparr>req_json = Inr (JObj [(''jobDescription'', JStr ''Senior Rust engineer'')]),
      job_OPENAI_API_KEY = Some ''sk-test'',
      completions_fetch = (\<lambda>r. Inr (completion_of ''{}'')),
      JSON_parse = (\<lambda>v. if v = JStr ''{}'' then Inr (JObj [])
                         else Inl (Rejected ''SyntaxError''))\<rparr>"

definition not_json_env :: job_env where
  "not_json_env = wrong_shape_env\<lparr>completions_fetch := (\<lambda>r. Inr (completion_of ''Sorry, I cannot help''))\<rparr>"

definition upstream_down_env :: job_env where
  "upstream_down_env = wrong_shape_env\<lparr>completions_fetch := (\<lambda>r. Inl (Rejected ''fetch failed''))\<rparr>"

section \<open>Several calls of createSession in flight\<close>

text \<open>
  A call of createSession touches the usage store twice: it reads it in
  hasRemainingMessages and writes it in incrementMessageCount, and between the two it
  awaits the session-creation request. While it waits, other calls run. The server is
  therefore modelled by two kinds of step: \<open>Arrive\<close>, a new call runs lines 51-116 (the
  check and the request) against the store as it is now and, unless it raised, waits in
  \<open>in_flight\<close>; \<open>Complete\<close>, the oldest waiting call runs lines 118-121 (the increment
  and the return). \<open>results\<close> collects what the calls returned or raised, \<open>commits\<close>
  counts the increments. All calls come from the same caller (the same environment).
\<close>

datatype action = Arrive | Complete

record server =
  sv_store :: usage_store
  in_flight :: "pending list"
  results :: "(js_exn + jsval) list"
  commits :: nat

fun step :: "env \<Rightarrow> server \<Rightarrow> action \<Rightarrow> server" where
  "step e s Arrive =
     (case createSession_request e (sv_store s) of
        Inl ex \<Rightarrow> s\<lparr>results := results s @ [Inl ex]\<rparr>
      | Inr pd \<Rightarrow> s\<lparr>in_flight := in_flight s @ [pd]\<rparr>)"
| "step e s Complete =
     (case in_flight s of
        [] \<Rightarrow> s
      | pd # rest \<Rightarrow>
          (case createSession_commit e pd (sv_store s) of
             (r, store') \<Rightarrow>
               s\<lparr>sv_store := store', in_flight := rest, results := results s @ [r],
                  commits := commits s + 1\<rparr>))"

definition run :: "env \<Rightarrow> server \<Rightarrow> action list \<Rightarrow> server" where
  "run e s acts = foldl (step e) s acts"

text \<open>
  The server with nothing in flight; \<open>n\<close> calls one after the other, each finishing
  before the next arrives; the number of calls that were refused with the quota error;
  and the environments in which the session-creation request succeeds with body \<open>data\<close>.
\<close>

definition idle :: "usage_store \<Rightarrow> server" where
  "idle store = \<lparr>sv_store = store, in_flight = [], results = [], commits = 0\<rparr>"

definition sequential :: "nat \<Rightarrow> action list" where
  "sequential n = concat (replicate n [Arrive, Complete])"

definition quota_rejections :: "env \<Rightarrow> plan \<Rightarrow> server \<Rightarrow> nat" where
  "quota_rejections e p s =
     length (filter (\<lambda>r. r = Inl (Error (quota_message (isGuest_of e) p
                                      (getMessageLimit (isGuest_of e) p)))) (results s))"

definition upstream_accepts :: "env \<Rightarrow> jsval \<Rightarrow> bool" where
  "upstream_accepts e data =
     (case OPENAI_API_KEY e of
        None \<Rightarrow> False
      | Some apiKey \<Rightarrow> apiKey \<noteq> [] \<and>
     (case WORKFLOW_ID e of
        None \<Rightarrow> False
      | Some workflow \<Rightarrow> workflow \<noteq> [] \<and>
     (case fetch e (session_request e apiKey workflow) of
        Inl ex \<Rightarrow> False
      | Inr response \<Rightarrow> resp_ok response \<and> resp_json response = Inr data)))"

section \<open>Theorems\<close>

text \<open>
  C1. The quota policy is a function of (isGuest, plan) alone and its table is: a guest
  gets 3 whatever the plan, an authenticated free user 5, an authenticated recruiter 20.
\<close>

theorem getMessageLimit_table:
  "getMessageLimit True p = 3 \<and>
   getMessageLimit False Free = 5 \<and>
   getMessageLimit False Recruiter = 20"
  by (simp add: getMessageLimit_def)

subsection \<open>Plan resolution\<close>

lemma some_loop_members:
  "\<forall>m\<in>set ms. \<not> nullish m \<Longrightarrow>
   some_loop membership_is_recruiter ms = Inr (\<exists>m\<in>set ms. org_marks_recruiter m)"
  by (induction ms) (auto simp: membership_is_recruiter_def get_prop_def org_marks_recruiter_def)

lemma some_loop_true:
  "some_loop f xs = Inr True \<Longrightarrow> \<exists>x\<in>set xs. f x = Inr True"
  by (induction xs) (auto split: sum.splits if_splits)

lemma membership_is_recruiter_true:
  "membership_is_recruiter m = Inr True \<Longrightarrow> \<not> nullish m \<and> org_marks_recruiter m"
  by (auto simp: membership_is_recruiter_def get_prop_def org_marks_recruiter_def split: if_splits)

lemma array_some_true:
  "array_some v membership_is_recruiter = Inr True \<Longrightarrow>
   \<exists>ms. v = JArr ms \<and> (\<exists>m\<in>set ms. \<not> nullish m \<and> org_marks_recruiter m)"
  by (cases v) (auto dest!: some_loop_true membership_is_recruiter_true)

lemma getUserPlan_try_recruiter:
  assumes "getUserPlan_try getUser userId = Inr Recruiter"
  shows "\<exists>user. getUser userId = Inr user \<and> \<not> nullish user \<and>
           ((\<exists>ms. subscriptions_of user = JArr ms \<and>
                (\<exists>m\<in>set ms. \<not> nullish m \<and> org_marks_recruiter m))
            \<or> public_marks_recruiter user \<or> private_marks_recruiter user)"
proof -
  from assms obtain user where u: "getUser userId = Inr user"
    by (cases "getUser userId") (simp_all add: getUserPlan_try_def)
  from assms u have nn: "\<not> nullish user"
    by (auto simp: getUserPlan_try_def get_prop_def split: if_splits)
  show ?thesis
  proof (cases "array_some (subscriptions_of user) membership_is_recruiter")
    case (Inl e)
    with assms u nn show ?thesis
      by (simp add: getUserPlan_try_def get_prop_def subscriptions_of_def Let_def)
  next
    case (Inr b)
    show ?thesis
    proof (cases b)
      case True
      with Inr array_some_true[of "subscriptions_of user"] u nn show ?thesis by auto
    next
      case False
      with Inr assms u nn have "public_marks_recruiter user \<or> private_marks_recruiter user"
        by (auto simp: getUserPlan_try_def get_prop_def subscriptions_of_def Let_def
            public_marks_recruiter_def private_marks_recruiter_def split: if_splits)
      with u nn show ?thesis by blast
    qed
  qed
qed

lemma getUserPlan_total: "\<exists>p. getUserPlan getUser userId = Inr p"
  by (simp add: getUserPlan_def split: sum.splits)

text \<open>
  C3. First-match precedence. For a user object whose memberships (when it has any) are
  an array of objects, the plan is recruiter if the organization of some membership marks
  it so, whatever the user's own metadata says; otherwise recruiter if the public
  metadata marks it; otherwise recruiter if the private metadata marks it; otherwise
  free.
\<close>

theorem getUserPlan_precedence:
  assumes "getUser userId = Inr user" and "\<not> nullish user"
    and "subscriptions_of user = JArr ms" and "\<forall>m\<in>set ms. \<not> nullish m"
  shows "getUserPlan getUser userId =
     Inr (if \<exists>m\<in>set ms. org_marks_recruiter m then Recruiter
          else if public_marks_recruiter user then Recruiter
          else if private_marks_recruiter user then Recruiter
          else Free)"
  using assms some_loop_members[OF assms(4)]
  by (simp add: getUserPlan_def getUserPlan_try_def get_prop_def subscriptions_of_def Let_def
      public_marks_recruiter_def private_marks_recruiter_def)

theorem getUserPlan_precedence_witness:
  "\<not> public_marks_recruiter conflicted_user \<and>
   getUserPlan (\<lambda>u. Inr conflicted_user) ''user_1'' = Inr Recruiter"
  using getUserPlan_precedence[of "\<lambda>u. Inr conflicted_user" "''user_1''" conflicted_user
      "[free_org, recruiter_org]"]
  by (simp add: conflicted_user_def subscriptions_of_def nullish_def org_marks_recruiter_def
      opt_prop_def public_marks_recruiter_def free_org_def recruiter_org_def)

text \<open>
  C4. Plan resolution fails closed. getUserPlan always returns a plan and never raises;
  it returns free whenever the provider lookup raises, and whenever a read of the
  returned data raises (a user that is \<^verbatim>\<open>null\<close>, memberships that are not an array,
  a membership that is \<^verbatim>\<open>null\<close>); and it returns recruiter only when one of the three
  signals is really there to be read.
\<close>

theorem getUserPlan_fails_closed:
  "(\<exists>p. getUserPlan getUser userId = Inr p) \<and>
   (\<forall>e. getUser userId = Inl e \<longrightarrow> getUserPlan getUser userId = Inr Free) \<and>
   (\<forall>e. getUserPlan_try getUser userId = Inl e \<longrightarrow> getUserPlan getUser userId = Inr Free) \<and>
   (\<forall>user. getUser userId = Inr user \<and> nullish user \<longrightarrow>
        getUserPlan getUser userId = Inr Free) \<and>
   (\<forall>user. getUser userId = Inr user \<and> \<not> nullish user \<and>
        (\<forall>ms. subscriptions_of user \<noteq> JArr ms) \<longrightarrow> getUserPlan getUser userId = Inr Free) \<and>
   (\<forall>user ms. getUser userId = Inr user \<and> \<not> nullish user \<and>
        subscriptions_of user = JArr (JNull # ms) \<longrightarrow> getUserPlan getUser userId = Inr Free) \<and>
   (getUserPlan getUser userId = Inr Recruiter \<longrightarrow>
      (\<exists>user. getUser userId = Inr user \<and> \<not> nullish user \<and>
         ((\<exists>ms. subscriptions_of user = JArr ms \<and>
              (\<exists>m\<in>set ms. \<not> nullish m \<and> org_marks_recruiter m))
          \<or> public_marks_recruiter user \<or> private_marks_recruiter user)))"
proof (intro conjI allI impI)
  show "\<exists>p. getUserPlan getUser userId = Inr p"
    by (rule getUserPlan_total)
next
  fix e assume "getUser userId = Inl e"
  then show "getUserPlan getUser userId = Inr Free"
    by (simp add: getUserPlan_def getUserPlan_try_def)
next
  fix e assume "getUserPlan_try getUser userId = Inl e"
  then show "getUserPlan getUser userId = Inr Free"
    by (simp add: getUserPlan_def)
next
  fix user assume "getUser userId = Inr user \<and> nullish user"
  then show "getUserPlan getUser userId = Inr Free"
    by (simp add: getUserPlan_def getUserPlan_try_def get_prop_def)
next
  fix user
  assume a: "getUser userId = Inr user \<and> \<not> nullish user \<and> (\<forall>ms. subscriptions_of user \<noteq> JArr ms)"
  then have "array_some (subscriptions_of user) membership_is_recruiter = Inl TypeError"
    by (cases "subscriptions_of user") simp_all
  with a show "getUserPlan getUser userId = Inr Free"
    by (simp add: getUserPlan_def getUserPlan_try_def get_prop_def subscriptions_of_def Let_def)
next
  fix user ms
  assume "getUser userId = Inr user \<and> \<not> nullish user \<and> subscriptions_of user = JArr (JNull # ms)"
  then show "getUserPlan getUser userId = Inr Free"
    by (simp add: getUserPlan_def getUserPlan_try_def get_prop_def subscriptions_of_def Let_def
        membership_is_recruiter_def nullish_def split: if_splits)
next
  assume "getUserPlan getUser userId = Inr Recruiter"
  then have "getUserPlan_try getUser userId = Inr Recruiter"
    by (auto simp: getUserPlan_def split: sum.splits)
  then show "\<exists>user. getUser userId = Inr user \<and> \<not> nullish user \<and>
         ((\<exists>ms. subscriptions_of user = JArr ms \<and>
              (\<exists>m\<in>set ms. \<not> nullish m \<and> org_marks_recruiter m))
          \<or> public_marks_recruiter user \<or> private_marks_recruiter user)"
    by (rule getUserPlan_try_recruiter)
qed

theorem getUserPlan_fails_closed_witness:
  "getUserPlan (\<lambda>u. Inl (Rejected ''provider unreachable'')) ''user_1'' = Inr Free \<and>
   getUserPlan (\<lambda>u. Inr JNull) ''user_1'' = Inr Free \<and>
   getUserPlan (\<lambda>u. Inr malformed_user) ''user_1'' = Inr Free"
  using getUserPlan_fails_closed[of "\<lambda>u. Inl (Rejected ''provider unreachable'')" "''user_1''"]
    getUserPlan_fails_closed[of "\<lambda>u. Inr JNull" "''user_1''"]
    getUserPlan_fails_closed[of "\<lambda>u. Inr malformed_user" "''user_1''"]
  by (simp add: nullish_def subscriptions_of_def malformed_user_def)

subsection \<open>createSession\<close>

lemma plan_of_total: "\<exists>p. plan_of e = Inr p"
  by (auto simp: plan_of_def getUserPlan_def split: option.splits sum.splits)

lemma plan_of_guest: "isGuest_of e \<Longrightarrow> plan_of e = Inr Free"
  by (auto simp: plan_of_def isGuest_of_def truthy_str_def split: option.splits)

lemma number_to_string_limits:
  "number_to_string 3 = ''3''" "number_to_string 5 = ''5''" "number_to_string 20 = ''20''"
  by (simp_all add: number_to_string_def digits_of.simps digit_char_def)

lemma createSession_not_allowed:
  assumes "plan_of e = Inr p" and "\<not> allowed (usage_check e p store)"
  shows "createSession e store =
     (Inl (Error (quota_message (isGuest_of e) p (getMessageLimit (isGuest_of e) p))), store)"
  using assms
  by (simp add: createSession_def createSession_request_def usage_check_def Let_def
      hasRemainingMessages_def)

lemma quota_message_starts: "\<exists>rest. quota_message g p l = CHR ''H'' # rest"
  by (simp add: quota_message_def limit_reached_def)

lemma quota_message_not_config:
  "quota_message g p l \<noteq> ''OPENAI_API_KEY not configured''"
  "quota_message g p l \<noteq> ''WORKFLOW_ID not configured''"
  "quota_message g p l \<noteq> ''Failed to create session: '' @ body"
  using quota_message_starts[of g p l] by auto

text \<open>What the request part returns, case by case.\<close>

lemma createSession_request_allowed:
  assumes "plan_of e = Inr p" and "allowed (usage_check e p store)"
  shows "createSession_request e store =
     (case OPENAI_API_KEY e of
        None \<Rightarrow> Inl (Error ''OPENAI_API_KEY not configured'')
      | Some apiKey \<Rightarrow>
      if apiKey = [] then Inl (Error ''OPENAI_API_KEY not configured'')
      else
     (case WORKFLOW_ID e of
        None \<Rightarrow> Inl (Error ''WORKFLOW_ID not configured'')
      | Some workflow \<Rightarrow>
      if workflow = [] then Inl (Error ''WORKFLOW_ID not configured'')
      else
     (case fetch e (session_request e apiKey workflow) of
        Inl ex \<Rightarrow> Inl ex
      | Inr response \<Rightarrow>
      if \<not> resp_ok response
      then (case resp_text response of
              Inl ex \<Rightarrow> Inl ex
            | Inr error \<Rightarrow> Inl (Error (''Failed to create session: '' @ error)))
      else
     (case resp_json response of
        Inl ex \<Rightarrow> Inl ex
      | Inr data \<Rightarrow>
          Inr \<lparr>p_identifier = identifier_of e, p_isGuest = isGuest_of e,
               p_messageLimit = getMessageLimit (isGuest_of e) p, p_data = data\<rparr>))))"
  using assms
  by (simp add: createSession_request_def usage_check_def Let_def session_request_def
      split: option.splits sum.splits)

lemma createSession_request_not_allowed:
  assumes "plan_of e = Inr p" and "\<not> allowed (usage_check e p store)"
  shows "createSession_request e store =
     Inl (Error (quota_message (isGuest_of e) p (getMessageLimit (isGuest_of e) p)))"
  using assms
  by (simp add: createSession_request_def usage_check_def Let_def hasRemainingMessages_def)

lemma createSession_request_pending:
  assumes "createSession_request e store = Inr pd" and "plan_of e = Inr p"
  shows "allowed (usage_check e p store) \<and>
     (\<exists>apiKey workflow response.
        OPENAI_API_KEY e = Some apiKey \<and> apiKey \<noteq> [] \<and>
        WORKFLOW_ID e = Some workflow \<and> workflow \<noteq> [] \<and>
        fetch e (session_request e apiKey workflow) = Inr response \<and>
        resp_ok response \<and> resp_json response = Inr (p_data pd)) \<and>
     p_identifier pd = identifier_of e \<and> p_isGuest pd = isGuest_of e \<and>
     p_messageLimit pd = getMessageLimit (isGuest_of e) p"
proof (cases "allowed (usage_check e p store)")
  case False
  with assms createSession_request_not_allowed[of e p store] show ?thesis by simp
next
  case True
  with assms createSession_request_allowed[of e p store] show ?thesis
    by (auto split: option.splits sum.splits if_splits)
qed

lemma createSession_store:
  "snd (createSession e store) = store \<or> snd (createSession e store) = incremented e store"
proof -
  obtain p where p: "plan_of e = Inr p" using plan_of_total by blast
  show ?thesis
  proof (cases "createSession_request e store")
    case (Inl ex)
    then show ?thesis by (simp add: createSession_def)
  next
    case (Inr pd)
    with createSession_request_pending[OF Inr p] show ?thesis
      by (simp add: createSession_def createSession_commit_def incrementMessageCount_def
          incremented_def Let_def)
  qed
qed

lemma incremented_neq: "incremented e store \<noteq> store"
proof
  assume "incremented e store = store"
  then have "incremented e store (identifier_of e, today e) = store (identifier_of e, today e)"
    by simp
  then show False by (simp add: incremented_def)
qed

text \<open>The concrete environments, evaluated.\<close>

lemma plan_of_examples:
  "plan_of guest_env = Inr Free" "plan_of free_user_env = Inr Free"
  "plan_of recruiter_env = Inr Recruiter"
  by (simp_all add: plan_of_def guest_env_def free_user_env_def recruiter_env_def
      getUserPlan_def getUserPlan_try_def get_prop_def nullish_def conflicted_user_def
      free_org_def recruiter_org_def membership_is_recruiter_def opt_prop_def Let_def)

lemma usage_check_examples:
  "\<not> allowed (usage_check guest_env Free (used_up ''203.0.113.7'' 3))"
  "\<not> allowed (usage_check free_user_env Free (used_up ''user_1'' 5))"
  "\<not> allowed (usage_check recruiter_env Recruiter (used_up ''user_1'' 20))"
  by (simp_all add: usage_check_def hasRemainingMessages_def guest_env_def free_user_env_def
      recruiter_env_def identifier_of_def isGuest_of_def truthy_str_def getMessageLimit_def
      used_up_def empty_store_def)

text \<open>
  C2. The increment happens only after the session-creation call has returned a success
  response. If the store createSession leaves differs from the one it found, then the
  keys were configured, \<^verbatim>\<open>fetch\<close> resolved to a response with \<^verbatim>\<open>ok\<close> whose body
  parsed, and the difference is one increment of the caller's (identity, day) count.
  Whenever the call rejects (a network error) or resolves to a response that is not
  \<^verbatim>\<open>ok\<close>, and whenever OPENAI_API_KEY or WORKFLOW_ID is missing, createSession raises
  and leaves the store as it found it.
\<close>

theorem createSession_increments_only_after_success:
  "(snd (createSession e store) \<noteq> store \<longrightarrow>
      snd (createSession e store) = incremented e store \<and>
      (\<exists>apiKey workflow response data.
         OPENAI_API_KEY e = Some apiKey \<and> apiKey \<noteq> [] \<and>
         WORKFLOW_ID e = Some workflow \<and> workflow \<noteq> [] \<and>
         fetch e (session_request e apiKey workflow) = Inr response \<and>
         resp_ok response \<and> resp_json response = Inr data)) \<and>
   (\<forall>apiKey workflow.
      OPENAI_API_KEY e = Some apiKey \<and> WORKFLOW_ID e = Some workflow \<and>
      (case fetch e (session_request e apiKey workflow) of
         Inl ex \<Rightarrow> True
       | Inr response \<Rightarrow> \<not> resp_ok response) \<longrightarrow>
      snd (createSession e store) = store \<and> (\<exists>ex. fst (createSession e store) = Inl ex)) \<and>
   (\<not> truthy_str (OPENAI_API_KEY e) \<or> \<not> truthy_str (WORKFLOW_ID e) \<longrightarrow>
      snd (createSession e store) = store \<and> (\<exists>ex. fst (createSession e store) = Inl ex))"
proof -
  obtain p where p: "plan_of e = Inr p" using plan_of_total by blast
  have req: "\<And>pd. createSession_request e store = Inr pd \<Longrightarrow>
      (\<exists>apiKey workflow response.
        OPENAI_API_KEY e = Some apiKey \<and> apiKey \<noteq> [] \<and>
        WORKFLOW_ID e = Some workflow \<and> workflow \<noteq> [] \<and>
        fetch e (session_request e apiKey workflow) = Inr response \<and>
        resp_ok response \<and> resp_json response = Inr (p_data pd))"
    using createSession_request_pending[OF _ p] by blast
  have fails: "\<And>ex. createSession_request e store = Inl ex \<Longrightarrow>
      snd (createSession e store) = store \<and> (\<exists>ex. fst (createSession e store) = Inl ex)"
    by (simp add: createSession_def)
  have c1: "snd (createSession e store) \<noteq> store \<longrightarrow>
      snd (createSession e store) = incremented e store \<and>
      (\<exists>apiKey workflow response data.
         OPENAI_API_KEY e = Some apiKey \<and> apiKey \<noteq> [] \<and>
         WORKFLOW_ID e = Some workflow \<and> workflow \<noteq> [] \<and>
         fetch e (session_request e apiKey workflow) = Inr response \<and>
         resp_ok response \<and> resp_json response = Inr data)"
  proof
    assume ch: "snd (createSession e store) \<noteq> store"
    with createSession_store[of e store]
    have i: "snd (createSession e store) = incremented e store" by blast
    from ch obtain pd where "createSession_request e store = Inr pd"
      by (cases "createSession_request e store") (simp_all add: createSession_def)
    from req[OF this] i
    show "snd (createSession e store) = incremented e store \<and>
      (\<exists>apiKey workflow response data.
         OPENAI_API_KEY e = Some apiKey \<and> apiKey \<noteq> [] \<and>
         WORKFLOW_ID e = Some workflow \<and> workflow \<noteq> [] \<and>
         fetch e (session_request e apiKey workflow) = Inr response \<and>
         resp_ok response \<and> resp_json response = Inr data)" by blast
  qed
  have c2: "\<forall>apiKey workflow.
      OPENAI_API_KEY e = Some apiKey \<and> WORKFLOW_ID e = Some workflow \<and>
      (case fetch e (session_request e apiKey workflow) of
         Inl ex \<Rightarrow> True
       | Inr response \<Rightarrow> \<not> resp_ok response) \<longrightarrow>
      snd (createSession e store) = store \<and> (\<exists>ex. fst (createSession e store) = Inl ex)"
  proof (intro allI impI)
    fix apiKey workflow
    assume a: "OPENAI_API_KEY e = Some apiKey \<and> WORKFLOW_ID e = Some workflow \<and>
      (case fetch e (session_request e apiKey workflow) of
         Inl ex \<Rightarrow> True
       | Inr response \<Rightarrow> \<not> resp_ok response)"
    have "\<exists>ex. createSession_request e store = Inl ex"
    proof (cases "createSession_request e store")
      case (Inl ex) then show ?thesis by blast
    next
      case (Inr pd)
      from req[OF Inr] a show ?thesis by auto
    qed
    then obtain ex where "createSession_request e store = Inl ex" by blast
    from fails[OF this]
    show "snd (createSession e store) = store \<and> (\<exists>ex. fst (createSession e store) = Inl ex)" .
  qed
  have c3: "\<not> truthy_str (OPENAI_API_KEY e) \<or> \<not> truthy_str (WORKFLOW_ID e) \<longrightarrow>
      snd (createSession e store) = store \<and> (\<exists>ex. fst (createSession e store) = Inl ex)"
  proof
    assume a: "\<not> truthy_str (OPENAI_API_KEY e) \<or> \<not> truthy_str (WORKFLOW_ID e)"
    have "\<exists>ex. createSession_request e store = Inl ex"
    proof (cases "createSession_request e store")
      case (Inl ex) then show ?thesis by blast
    next
      case (Inr pd)
      from req[OF Inr] a show ?thesis by (auto simp: truthy_str_def)
    qed
    then obtain ex where "createSession_request e store = Inl ex" by blast
    from fails[OF this]
    show "snd (createSession e store) = store \<and> (\<exists>ex. fst (createSession e store) = Inl ex)" .
  qed
  from c1 c2 c3 show ?thesis by (intro conjI)
qed

theorem createSession_increments_only_after_success_witness:
  "snd (createSession network_down_env two_used) = two_used \<and>
   snd (createSession upstream_refuses_env two_used) = two_used \<and>
   snd (createSession no_api_key_env two_used) = two_used \<and>
   two_used (''203.0.113.7'', 19700) = 2"
  using createSession_increments_only_after_success[of network_down_env two_used]
    createSession_increments_only_after_success[of upstream_refuses_env two_used]
    createSession_increments_only_after_success[of no_api_key_env two_used]
  by (simp add: network_down_env_def upstream_refuses_env_def no_api_key_env_def guest_env_def
      truthy_str_def two_used_def)

text \<open>
  C5. When the check does not allow, createSession raises an error whose message depends
  on (isGuest, plan) and carries the limit that applies: for a guest the limit 3 and the
  invitation to sign in for 5 a day; for a recruiter the limit 20 and "come back
  tomorrow"; for a free user the limit 5 and the invitation to upgrade to Recruiter for
  20 a day. The store is left as it was.
\<close>

theorem createSession_quota_message:
  assumes "plan_of e = Inr p" and "\<not> allowed (usage_check e p store)"
  shows "createSession e store =
     (Inl (Error
        (if isGuest_of e
         then ''Has alcanzado el l'' @ [CHR 0xC3, CHR 0xAD] @ ''mite de 3 mensajes diarios. ''
              @ ''Inicia sesi'' @ [CHR 0xC3, CHR 0xB3] @ ''n para obtener 5 mensajes al d''
              @ [CHR 0xC3, CHR 0xAD] @ ''a.''
         else if p = Recruiter
         then ''Has alcanzado el l'' @ [CHR 0xC3, CHR 0xAD] @ ''mite de 20 mensajes diarios. ''
              @ ''Vuelve ma'' @ [CHR 0xC3, CHR 0xB1] @ ''ana para continuar.''
         else ''Has alcanzado el l'' @ [CHR 0xC3, CHR 0xAD] @ ''mite de 5 mensajes diarios. ''
              @ ''Actualiza a Recruiter para obtener 20 mensajes al d''
              @ [CHR 0xC3, CHR 0xAD] @ ''a.'')),
      store)"
proof -
  have "quota_message (isGuest_of e) p (getMessageLimit (isGuest_of e) p) =
        (if isGuest_of e
         then ''Has alcanzado el l'' @ [CHR 0xC3, CHR 0xAD] @ ''mite de 3 mensajes diarios. ''
              @ ''Inicia sesi'' @ [CHR 0xC3, CHR 0xB3] @ ''n para obtener 5 mensajes al d''
              @ [CHR 0xC3, CHR 0xAD] @ ''a.''
         else if p = Recruiter
         then ''Has alcanzado el l'' @ [CHR 0xC3, CHR 0xAD] @ ''mite de 20 mensajes diarios. ''
              @ ''Vuelve ma'' @ [CHR 0xC3, CHR 0xB1] @ ''ana para continuar.''
         else ''Has alcanzado el l'' @ [CHR 0xC3, CHR 0xAD] @ ''mite de 5 mensajes diarios. ''
              @ ''Actualiza a Recruiter para obtener 20 mensajes al d''
              @ [CHR 0xC3, CHR 0xAD] @ ''a.'')"
    by (cases p)
       (simp_all add: quota_message_def limit_reached_def messages_per_day_def
          getMessageLimit_def number_to_string_limits)
  with createSession_not_allowed[OF assms] show ?thesis by simp
qed

theorem createSession_quota_message_witness:
  "fst (createSession guest_env (used_up ''203.0.113.7'' 3)) =
     Inl (Error (''Has alcanzado el l'' @ [CHR 0xC3, CHR 0xAD] @ ''mite de 3 mensajes diarios. ''
              @ ''Inicia sesi'' @ [CHR 0xC3, CHR 0xB3] @ ''n para obtener 5 mensajes al d''
              @ [CHR 0xC3, CHR 0xAD] @ ''a.'')) \<and>
   fst (createSession free_user_env (used_up ''user_1'' 5)) =
     Inl (Error (''Has alcanzado el l'' @ [CHR 0xC3, CHR 0xAD] @ ''mite de 5 mensajes diarios. ''
              @ ''Actualiza a Recruiter para obtener 20 mensajes al d''
              @ [CHR 0xC3, CHR 0xAD] @ ''a.'')) \<and>
   fst (createSession recruiter_env (used_up ''user_1'' 20)) =
     Inl (Error (''Has alcanzado el l'' @ [CHR 0xC3, CHR 0xAD] @ ''mite de 20 mensajes diarios. ''
              @ ''Vuelve ma'' @ [CHR 0xC3, CHR 0xB1] @ ''ana para continuar.''))"
  using createSession_quota_message[OF plan_of_examples(1) usage_check_examples(1)]
    createSession_quota_message[OF plan_of_examples(2) usage_check_examples(2)]
    createSession_quota_message[OF plan_of_examples(3) usage_check_examples(3)]
  by (simp add: isGuest_of_def truthy_str_def guest_env_def free_user_env_def recruiter_env_def)




lemma usage_check_keys:
  "usage_check (e\<lparr>OPENAI_API_KEY := k, WORKFLOW_ID := w\<rparr>) p store = usage_check e p store"
  "plan_of (e\<lparr>OPENAI_API_KEY := k, WORKFLOW_ID := w\<rparr>) = plan_of e"
  "isGuest_of (e\<lparr>OPENAI_API_KEY := k, WORKFLOW_ID := w\<rparr>) = isGuest_of e"
  by (simp_all add: usage_check_def plan_of_def isGuest_of_def identifier_of_def
      split: option.splits)

lemma no_keys_env_facts:
  "plan_of no_keys_env = Inr Free"
  "fst (createSession no_keys_env empty_store) = Inl (Error ''OPENAI_API_KEY not configured'')"
  by (simp_all add: createSession_def createSession_request_def no_keys_env_def
      guest_env_def plan_of_def isGuest_of_def truthy_str_def identifier_of_def
      hasRemainingMessages_def getMessageLimit_def empty_store_def Let_def)









text \<open>
  The last case of the amended C7 does occur: a success response whose body is the JSON
  \<^verbatim>\<open>null\<close> makes createSession raise a TypeError, after the increment.
\<close>

lemma createSession_null_body:
  "fst (createSession null_body_env two_used) = Inl TypeError \<and>
   snd (createSession null_body_env two_used) (''203.0.113.7'', 19700) = 3"
  by (simp add: createSession_def createSession_request_def createSession_commit_def
      null_body_env_def guest_env_def plan_of_def isGuest_of_def truthy_str_def
      identifier_of_def hasRemainingMessages_def incrementMessageCount_def
      getMessageLimit_def two_used_def empty_store_def get_prop_def nullish_def Let_def)



text \<open>
  C10. The quota check comes before the configuration checks. When the check does not
  allow, createSession raises the quota error whatever OPENAI_API_KEY and WORKFLOW_ID
  are, missing included; and when createSession raises one of the two configuration
  errors, the check had allowed.
\<close>

theorem quota_check_precedes_configuration:
  assumes "plan_of e = Inr p"
  shows "(\<not> allowed (usage_check e p store) \<longrightarrow>
            (\<forall>k w. fst (createSession (e\<lparr>OPENAI_API_KEY := k, WORKFLOW_ID := w\<rparr>) store) =
               Inl (Error (quota_message (isGuest_of e) p (getMessageLimit (isGuest_of e) p))))) \<and>
         (fst (createSession e store) = Inl (Error ''OPENAI_API_KEY not configured'') \<or>
          fst (createSession e store) = Inl (Error ''WORKFLOW_ID not configured'')
            \<longrightarrow> allowed (usage_check e p store))"
proof (intro conjI impI allI)
  fix k w
  assume na: "\<not> allowed (usage_check e p store)"
  have "plan_of (e\<lparr>OPENAI_API_KEY := k, WORKFLOW_ID := w\<rparr>) = Inr p"
    using assms by (simp add: usage_check_keys)
  moreover have "\<not> allowed (usage_check (e\<lparr>OPENAI_API_KEY := k, WORKFLOW_ID := w\<rparr>) p store)"
    using na by (simp add: usage_check_keys)
  ultimately show "fst (createSession (e\<lparr>OPENAI_API_KEY := k, WORKFLOW_ID := w\<rparr>) store) =
               Inl (Error (quota_message (isGuest_of e) p (getMessageLimit (isGuest_of e) p)))"
    using createSession_not_allowed[of "e\<lparr>OPENAI_API_KEY := k, WORKFLOW_ID := w\<rparr>" p store]
    by (simp add: usage_check_keys)
next
  assume c: "fst (createSession e store) = Inl (Error ''OPENAI_API_KEY not configured'') \<or>
          fst (createSession e store) = Inl (Error ''WORKFLOW_ID not configured'')"
  show "allowed (usage_check e p store)"
  proof (rule ccontr)
    assume "\<not> allowed (usage_check e p store)"
    from createSession_not_allowed[OF assms this] c quota_message_not_config(1,2)
    show False by auto
  qed
qed

theorem quota_check_precedes_configuration_witness:
  "fst (createSession no_keys_env (used_up ''203.0.113.7'' 3)) =
     Inl (Error (quota_message True Free 3)) \<and>
   fst (createSession no_keys_env empty_store) = Inl (Error ''OPENAI_API_KEY not configured'') \<and>
   allowed (usage_check no_keys_env Free empty_store)"
proof -
  have "fst (createSession (guest_env\<lparr>OPENAI_API_KEY := None, WORKFLOW_ID := None\<rparr>)
          (used_up ''203.0.113.7'' 3)) =
        Inl (Error (quota_message (isGuest_of guest_env) Free
          (getMessageLimit (isGuest_of guest_env) Free)))"
    using quota_check_precedes_configuration[OF plan_of_examples(1),
        of "used_up ''203.0.113.7'' 3"] usage_check_examples(1)
    by blast
  moreover have "isGuest_of guest_env"
    by (simp add: isGuest_of_def guest_env_def truthy_str_def)
  moreover have "allowed (usage_check no_keys_env Free empty_store)"
    using quota_check_precedes_configuration[OF no_keys_env_facts(1), of empty_store]
      no_keys_env_facts(2) by blast
  ultimately show ?thesis
    using no_keys_env_facts(2) by (simp add: no_keys_env_def getMessageLimit_def)
qed

subsection \<open>The job-fit endpoint\<close>

lemma POST_total: "\<exists>r n. POST e = (Inr r, n) \<and> n \<le> 1"
proof -
  have "snd (POST_try e) \<le> 1"
    by (simp add: POST_try_def split: sum.splits option.splits)
  moreover have "snd (POST e) = snd (POST_try e)" "\<exists>r. fst (POST e) = Inr r"
    by (auto simp: POST_def split: prod.splits sum.splits)
  ultimately show ?thesis by (metis prod.collapse)
qed

text \<open>
  C9, as the spec states it, fails: the handler never compares the parsed content with
  the expected structure. When the model's content is the JSON text \<^verbatim>\<open>{}\<close>, which is
  no assessment, POST answers 200 with that empty object and no error.
\<close>

theorem POST_returns_unvalidated_content:
  "POST wrong_shape_env = (Inr \<lparr>api_status = 200, api_body = JObj []\<rparr>, 1) \<and>
   \<not> is_AssessmentResult (JObj [])"
  by (simp add: POST_def POST_try_def wrong_shape_env_def completion_of_def get_prop_def
      nullish_def completion_content_def Response_json_def)

text \<open>
  C9, amended. For a request with a body and a configured key, POST never raises and
  calls the completions API at most once (no retry). It answers with the one generic
  error, status 500 and "Failed to analyze job fit", in every case where the call
  rejects, the response is not \<^verbatim>\<open>ok\<close>, reading the response body or
  \<^verbatim>\<open>data.choices[0].message.content\<close> raises, or \<^verbatim>\<open>JSON.parse\<close> of the content raises.
  Content that parses is returned as it is with status 200, whatever its shape.
\<close>

theorem POST_failures:
  assumes "req_json e = Inr requestBody" and "\<not> nullish requestBody"
    and "job_OPENAI_API_KEY e = Some apiKey" and "apiKey \<noteq> []"
  shows "(\<exists>r n. POST e = (Inr r, n) \<and> n \<le> 1) \<and>
     POST e =
      (case completions_fetch e \<lparr>cr_authorization = ''Bearer '' @ apiKey,
              cr_jobDescription = lookup_prop requestBody ''jobDescription''\<rparr> of
         Inl ex \<Rightarrow> (Inr analysis_failed, 1)
       | Inr response \<Rightarrow>
           if \<not> resp_ok response then (Inr analysis_failed, 1)
           else
      (case resp_json response of
         Inl ex \<Rightarrow> (Inr analysis_failed, 1)
       | Inr data \<Rightarrow>
      (case completion_content data of
         Inl ex \<Rightarrow> (Inr analysis_failed, 1)
       | Inr content \<Rightarrow>
      (case JSON_parse e content of
         Inl ex \<Rightarrow> (Inr analysis_failed, 1)
       | Inr object \<Rightarrow>
           if object = JUndefined then (Inr analysis_failed, 1)
           else (Inr \<lparr>api_status = 200, api_body = object\<rparr>, 1)))))"
  using assms POST_total[of e]
  by (auto simp: POST_def POST_try_def get_prop_def Response_json_def split: sum.splits)

theorem POST_failures_witness:
  "POST not_json_env = (Inr analysis_failed, 1) \<and>
   POST upstream_down_env = (Inr analysis_failed, 1)"
  using POST_failures[of not_json_env "JObj [(''jobDescription'', JStr ''Senior Rust engineer'')]" "''sk-test''"]
    POST_failures[of upstream_down_env "JObj [(''jobDescription'', JStr ''Senior Rust engineer'')]" "''sk-test''"]
  by (simp add: not_json_env_def upstream_down_env_def wrong_shape_env_def nullish_def
      completion_of_def completion_content_def get_prop_def)

subsection \<open>Concurrent and sequential calls\<close>

text \<open>
  With nothing in flight, an arrival followed by a completion is one whole call of
  createSession: same store afterwards, same result.
\<close>

lemma one_call_is_createSession:
  "in_flight s = [] \<Longrightarrow>
   run e s [Arrive, Complete] =
     (case createSession_request e (sv_store s) of
        Inl ex \<Rightarrow> s\<lparr>results := results s @ [fst (createSession e (sv_store s))]\<rparr>
      | Inr pd \<Rightarrow> s\<lparr>sv_store := snd (createSession e (sv_store s)),
                     results := results s @ [fst (createSession e (sv_store s))],
                     commits := commits s + 1\<rparr>)"
  by (simp add: run_def createSession_def split: sum.splits prod.splits)

lemma guest_env_request:
  "createSession_request guest_env store =
     (if store (''203.0.113.7'', 19700) < 3
      then Inr \<lparr>p_identifier = ''203.0.113.7'', p_isGuest = True, p_messageLimit = 3,
                p_data = JObj [(''client_secret'', JStr ''cs_1'')]\<rparr>
      else Inl (Error (quota_message True Free 3)))"
  by (simp add: createSession_request_def guest_env_def plan_of_def isGuest_of_def
      truthy_str_def identifier_of_def hasRemainingMessages_def getMessageLimit_def
      session_created_def Let_def)

lemma guest_env_commit:
  "createSession_commit guest_env
     \<lparr>p_identifier = ''203.0.113.7'', p_isGuest = True, p_messageLimit = 3,
      p_data = JObj [(''client_secret'', JStr ''cs_1'')]\<rparr> store =
     (Inr (JStr ''cs_1''),
      store((''203.0.113.7'', 19700) := store (''203.0.113.7'', 19700) + 1))"
  by (simp add: createSession_commit_def incrementMessageCount_def guest_env_def get_prop_def
      nullish_def Let_def)



lemma guest_env_limit: "getMessageLimit (isGuest_of guest_env) Free = 3"
  by (simp add: getMessageLimit_def isGuest_of_def truthy_str_def guest_env_def)

lemma getMessageLimit_pos: "0 < getMessageLimit g p"
  by (simp add: getMessageLimit_def)

lemma createSession_request_accepted:
  assumes "plan_of e = Inr p" and "upstream_accepts e data"
  shows "createSession_request e store =
     (if store (identifier_of e, today e) < getMessageLimit (isGuest_of e) p
      then Inr \<lparr>p_identifier = identifier_of e, p_isGuest = isGuest_of e,
                p_messageLimit = getMessageLimit (isGuest_of e) p, p_data = data\<rparr>
      else Inl (Error (quota_message (isGuest_of e) p (getMessageLimit (isGuest_of e) p))))"
proof (cases "allowed (usage_check e p store)")
  case False
  then have "\<not> store (identifier_of e, today e) < getMessageLimit (isGuest_of e) p"
    by (simp add: usage_check_def hasRemainingMessages_def Let_def)
  with createSession_request_not_allowed[OF assms(1) False] show ?thesis by simp
next
  case True
  then have lt: "store (identifier_of e, today e) < getMessageLimit (isGuest_of e) p"
    by (simp add: usage_check_def hasRemainingMessages_def Let_def)
  from assms(2) createSession_request_allowed[OF assms(1) True]
  have "createSession_request e store =
          Inr \<lparr>p_identifier = identifier_of e, p_isGuest = isGuest_of e,
               p_messageLimit = getMessageLimit (isGuest_of e) p, p_data = data\<rparr>"
    by (auto simp: upstream_accepts_def split: option.splits sum.splits)
  with lt show ?thesis by simp
qed

lemma one_call_accepted:
  assumes "plan_of e = Inr p" and "upstream_accepts e data" and "in_flight s = []"
  shows "run e s [Arrive, Complete] =
     (if sv_store s (identifier_of e, today e) < getMessageLimit (isGuest_of e) p
      then s\<lparr>sv_store := incremented e (sv_store s),
             results := results s @ [get_prop data ''client_secret''],
             commits := commits s + 1\<rparr>
      else s\<lparr>results := results s @
             [Inl (Error (quota_message (isGuest_of e) p (getMessageLimit (isGuest_of e) p)))]\<rparr>)"
  using assms(3)
  by (simp add: run_def createSession_request_accepted[OF assms(1,2)] createSession_commit_def
      incrementMessageCount_def incremented_def Let_def)

lemma run_sequential_Suc:
  "run e s (sequential (Suc n)) = run e (run e s [Arrive, Complete]) (sequential n)"
  by (simp add: sequential_def run_def)

lemma sequential_run:
  assumes "plan_of e = Inr p" and "upstream_accepts e data"
  shows "in_flight s = [] \<Longrightarrow>
     sv_store s (identifier_of e, today e) \<le> getMessageLimit (isGuest_of e) p \<Longrightarrow>
     admitted = min n (nat (getMessageLimit (isGuest_of e) p
                             - sv_store s (identifier_of e, today e))) \<Longrightarrow>
     sv_store (run e s (sequential n)) (identifier_of e, today e) =
       sv_store s (identifier_of e, today e) + int admitted \<and>
     commits (run e s (sequential n)) = commits s + admitted \<and>
     results (run e s (sequential n)) =
       results s @ replicate admitted (get_prop data ''client_secret'')
         @ replicate (n - admitted)
             (Inl (Error (quota_message (isGuest_of e) p (getMessageLimit (isGuest_of e) p)))) \<and>
     in_flight (run e s (sequential n)) = []"
proof (induction n arbitrary: s admitted)
  case 0
  then show ?case by (simp add: sequential_def run_def)
next
  case (Suc n)
  let ?L = "getMessageLimit (isGuest_of e) p"
  let ?key = "(identifier_of e, today e)"
  let ?c = "sv_store s ?key"
  let ?s1 = "run e s [Arrive, Complete]"
  show ?case
  proof (cases "?c < ?L")
    case True
    have s1: "?s1 = s\<lparr>sv_store := incremented e (sv_store s),
             results := results s @ [get_prop data ''client_secret''],
             commits := commits s + 1\<rparr>"
      using one_call_accepted[OF assms Suc.prems(1)] True by simp
    have f1: "in_flight ?s1 = []" "sv_store ?s1 ?key = ?c + 1"
      "commits ?s1 = commits s + 1"
      "results ?s1 = results s @ [get_prop data ''client_secret'']"
      using Suc.prems(1) by (simp_all add: s1 incremented_def)
    have le: "sv_store ?s1 ?key \<le> ?L" using True f1(2) by simp
    define admitted' where "admitted' = min n (nat (?L - sv_store ?s1 ?key))"
    have adm: "admitted = Suc admitted'"
      using Suc.prems(3) True f1(2) by (simp add: admitted'_def min_def) linarith
    from Suc.IH[OF f1(1) le admitted'_def]
    show ?thesis
      by (simp add: run_sequential_Suc f1 adm)
  next
    case False
    with Suc.prems have a0: "admitted = 0" by simp
    have s1: "?s1 = s\<lparr>results := results s @
             [Inl (Error (quota_message (isGuest_of e) p ?L))]\<rparr>"
      using one_call_accepted[OF assms Suc.prems(1)] False by simp
    have f1: "in_flight ?s1 = []" "sv_store ?s1 ?key = ?c"
      "commits ?s1 = commits s"
      "results ?s1 = results s @ [Inl (Error (quota_message (isGuest_of e) p ?L))]"
      using Suc.prems(1) by (simp_all add: s1)
    have le: "sv_store ?s1 ?key \<le> ?L" using Suc.prems(2) f1(2) by simp
    have z: "0 = min n (nat (?L - sv_store ?s1 ?key))"
      using False f1(2) by simp
    from Suc.IH[OF f1(1) le z]
    show ?thesis
      by (simp add: run_sequential_Suc f1 a0 replicate_append_same)
  qed
qed


lemma get_prop_not_Error: "get_prop v q \<noteq> Inl (Error m)"
  by (simp add: get_prop_def)

text \<open>
  C6, as the spec states it, fails: the check and the commit are two separate calls of
  createSession with an awaited request between them. For a guest (limit 3) with a fresh
  count, four calls that all arrive before any completes all pass the check and all
  commit: four increments, no rejection, a count of 4. Likewise two calls arriving when
  one message is left (count 2) both pass and leave the count at 4.
\<close>

theorem concurrent_calls_over_admit:
  "commits (run guest_env (idle empty_store)
      [Arrive, Arrive, Arrive, Arrive, Complete, Complete, Complete, Complete]) = 4 \<and>
   results (run guest_env (idle empty_store)
      [Arrive, Arrive, Arrive, Arrive, Complete, Complete, Complete, Complete]) =
     [Inr (JStr ''cs_1''), Inr (JStr ''cs_1''), Inr (JStr ''cs_1''), Inr (JStr ''cs_1'')] \<and>
   sv_store (run guest_env (idle empty_store)
      [Arrive, Arrive, Arrive, Arrive, Complete, Complete, Complete, Complete])
      (''203.0.113.7'', 19700) = 4 \<and>
   getMessageLimit (isGuest_of guest_env) Free = 3 \<and>
   sv_store (run guest_env (idle two_used) [Arrive, Arrive, Complete, Complete])
      (''203.0.113.7'', 19700) = 4"
proof -
  have "run guest_env (idle empty_store)
      [Arrive, Arrive, Arrive, Arrive, Complete, Complete, Complete, Complete] =
     \<lparr>sv_store = empty_store((''203.0.113.7'', 19700) := 4), in_flight = [],
      results = [Inr (JStr ''cs_1''), Inr (JStr ''cs_1''), Inr (JStr ''cs_1''),
                 Inr (JStr ''cs_1'')],
      commits = 4\<rparr>"
    by (simp add: run_def idle_def guest_env_request guest_env_commit empty_store_def)
  moreover have "sv_store (run guest_env (idle two_used) [Arrive, Arrive, Complete, Complete])
      (''203.0.113.7'', 19700) = 4"
    by (simp add: run_def idle_def guest_env_request guest_env_commit two_used_def
        empty_store_def)
  ultimately show ?thesis
    by (simp add: guest_env_limit)
qed

text \<open>
  C6, amended. When the calls of one caller run one after the other and the
  session-creation request succeeds, \<open>limit + k\<close> calls on a fresh count give exactly
  \<open>limit\<close> increments and \<open>k\<close> quota rejections, the first \<open>limit\<close> calls being the ones
  admitted, and leave the count at \<open>limit\<close>.
\<close>

theorem sequential_calls_admit_exactly_limit:
  assumes "plan_of e = Inr p" and "upstream_accepts e data"
    and "store (identifier_of e, today e) = 0"
  shows
    "commits (run e (idle store)
        (sequential (nat (getMessageLimit (isGuest_of e) p) + k))) =
       nat (getMessageLimit (isGuest_of e) p) \<and>
     quota_rejections e p (run e (idle store)
        (sequential (nat (getMessageLimit (isGuest_of e) p) + k))) = k \<and>
     results (run e (idle store)
        (sequential (nat (getMessageLimit (isGuest_of e) p) + k))) =
       replicate (nat (getMessageLimit (isGuest_of e) p)) (get_prop data ''client_secret'')
         @ replicate k
             (Inl (Error (quota_message (isGuest_of e) p (getMessageLimit (isGuest_of e) p)))) \<and>
     sv_store (run e (idle store)
        (sequential (nat (getMessageLimit (isGuest_of e) p) + k)))
        (identifier_of e, today e) = getMessageLimit (isGuest_of e) p"
proof -
  let ?L = "getMessageLimit (isGuest_of e) p"
  have pos: "0 < ?L" by (rule getMessageLimit_pos)
  have i: "in_flight (idle store) = []" "results (idle store) = []"
    "commits (idle store) = 0" "sv_store (idle store) = store"
    by (simp_all add: idle_def)
  have le: "sv_store (idle store) (identifier_of e, today e) \<le> ?L"
    using pos assms(3) by (simp add: i)
  have adm: "nat ?L = min (nat ?L + k) (nat (?L - sv_store (idle store) (identifier_of e, today e)))"
    using assms(3) by (simp add: i)
  from sequential_run[OF assms(1,2) i(1) le adm] pos assms(3)
  show ?thesis
    by (simp add: i quota_rejections_def get_prop_not_Error)
qed

theorem sequential_calls_admit_exactly_limit_witness:
  "commits (run guest_env (idle empty_store) (sequential 5)) = 3 \<and>
   quota_rejections guest_env Free (run guest_env (idle empty_store) (sequential 5)) = 2 \<and>
   sv_store (run guest_env (idle empty_store) (sequential 5)) (''203.0.113.7'', 19700) = 3"
proof -
  have u: "upstream_accepts guest_env (JObj [(''client_secret'', JStr ''cs_1'')])"
    by (simp add: upstream_accepts_def guest_env_def session_created_def)
  have f: "empty_store (identifier_of guest_env, today guest_env) = 0"
    by (simp add: empty_store_def)
  have k: "identifier_of guest_env = ''203.0.113.7''" "today guest_env = 19700"
    by (simp_all add: identifier_of_def guest_env_def)
  from sequential_calls_admit_exactly_limit[of guest_env Free
      "JObj [(''client_secret'', JStr ''cs_1'')]" empty_store 2, OF plan_of_examples(1) u f]
  show ?thesis
    by (simp add: guest_env_limit k)
qed

end
